theory Spec2Isabelle
  imports Main "HOL-Library.AList" "HOL-Library.Sublist"
begin

section \<open>Python values used by the worker pool\<close>

text \<open>
  The keyword-argument dictionaries handed to a worker's initializer hold a list of GPU
  device numbers and a backend name (or \<open>None\<close>). A dictionary is an association list in
  insertion order, which is also the order in which Python iterates over it.
\<close>

datatype pyval = PyNone | PyStr string | PyIntList "int list"

type_synonym kwargs = "(string \<times> pyval) list"

datatype callable = worker_init | worker_init_entry_point_fn | user_function string

datatype error = AssertionError string | RuntimeError string | AttributeError string

text \<open>\<open>range(n)\<close> for a Python integer: empty when \<open>n \<le> 0\<close>.\<close>

definition range_py :: "int \<Rightarrow> int list" where
  "range_py n = [0..n - 1]"

text \<open>Truthiness of an optional string (\<open>if backend:\<close>) and of an optional integer.\<close>

fun truthy_str :: "string option \<Rightarrow> bool" where
  "truthy_str None = False"
| "truthy_str (Some s) = (s \<noteq> [])"

fun truthy_int :: "int option \<Rightarrow> bool" where
  "truthy_int None = False"
| "truthy_int (Some n) = (n \<noteq> 0)"

section \<open>GPU assignment (parallelism.py, lines 75 to 105)\<close>

text \<open>
  \<open>gpu_assignments_remaining\<close> maps each GPU still in the pool to the number of workers
  it can still take. It is built from \<open>range(num_gpus)\<close>, every GPU starting at
  \<open>max_workers_per_gpu\<close>.
\<close>

definition gpu_assignments_init :: "int \<Rightarrow> int \<Rightarrow> (int \<times> int) list" where
  "gpu_assignments_init num_gpus max_workers_per_gpu =
     map (\<lambda>gpu. (gpu, max_workers_per_gpu)) (range_py num_gpus)"

text \<open>
  \<open>d[key]\<close> for a key taken from the dictionary itself (the only use in the source, so
  no \<open>KeyError\<close> can arise).
\<close>

definition dict_item :: "(int \<times> int) list \<Rightarrow> int \<Rightarrow> int" where
  "dict_item d key = the (map_of d key)"

text \<open>
  One pass of the loop body for one worker. \<open>sorted(d, key=...)\<close> sorts the keys of the
  dictionary by their remaining count, ascending and stable; \<open>[0]\<close> takes the first. The
  chosen GPU's count is decremented and the GPU is deleted when the count becomes zero.
  With an empty dictionary the worker gets the empty list (CPU).
\<close>

definition assign_gpu :: "(int \<times> int) list \<Rightarrow> int list \<times> (int \<times> int) list" where
  "assign_gpu remaining =
     (if remaining \<noteq> [] then
        (let gpu_num = hd (sort_key (\<lambda>key. dict_item remaining key) (map fst remaining));
             decremented = AList.update gpu_num (dict_item remaining gpu_num - 1) remaining;
             remaining' = (if dict_item decremented gpu_num = 0
                           then AList.delete gpu_num decremented else decremented)
         in ([gpu_num], remaining'))
      else ([], remaining))"

text \<open>
  The loop \<open>for worker_num in range(num_workers)\<close>: the dictionary is threaded through,
  and one kwargs dictionary per worker is appended to \<open>worker_init_kwargs\<close>.
\<close>

fun assign_workers ::
  "int list \<Rightarrow> pyval \<Rightarrow> (int \<times> int) list \<Rightarrow> kwargs list \<Rightarrow> kwargs list" where
  "assign_workers [] backend remaining worker_init_kwargs = worker_init_kwargs"
| "assign_workers (worker_num # rest) backend remaining worker_init_kwargs =
     (case assign_gpu remaining of
        (gpu_assignment, remaining') \<Rightarrow>
          assign_workers rest backend remaining'
            (worker_init_kwargs @
               [[(''gpu_device_nums'', PyIntList gpu_assignment),
                 (''keras_backend'', backend)]]))"

text \<open>
  The value of \<open>worker_init_kwargs\<close> when \<open>make_worker_pool\<close> is called: \<open>None\<close> unless
  \<open>num_gpus\<close> is truthy, in which case the backend is forced to \<open>tensorflow-default\<close> and
  the loop above runs.
\<close>

definition plan_worker_init_kwargs ::
  "int \<Rightarrow> int \<Rightarrow> string option \<Rightarrow> int \<Rightarrow> kwargs list option" where
  "plan_worker_init_kwargs num_workers num_gpus backend max_workers_per_gpu =
     (if num_gpus \<noteq> 0 then
        Some (assign_workers (range_py num_workers) (PyStr ''tensorflow-default'')
                (gpu_assignments_init num_gpus max_workers_per_gpu) [])
      else None)"

text \<open>Reading the GPU list back out of a worker's kwargs dictionary.\<close>

definition gpu_device_nums :: "kwargs \<Rightarrow> int list" where
  "gpu_device_nums kw =
     (case map_of kw ''gpu_device_nums'' of Some (PyIntList gpus) \<Rightarrow> gpus | _ \<Rightarrow> [])"

section \<open>Building the pool (parallelism.py, lines 61 to 188)\<close>

text \<open>
  The pool handle is represented by the keyword arguments \<open>Pool\<close> is constructed with.
  A queue is the list of its contents, oldest first. \<open>cpu_count\<close> is the value that
  \<open>multiprocessing.cpu_count()\<close> returns on the machine; it is at least 1 on every
  machine where the call returns.
\<close>

record pool_kwargs =
  processes :: int
  maxtasksperchild :: "int option"
  initializer :: "callable option"
  initargs :: "(callable \<times> kwargs list \<times> kwargs list) option"

datatype pool = Pool pool_kwargs

fun fill_queues :: "kwargs list \<Rightarrow> kwargs list \<times> kwargs list \<Rightarrow> kwargs list \<times> kwargs list" where
  "fill_queues [] (kwargs_queue, kwargs_queue_backup) = (kwargs_queue, kwargs_queue_backup)"
| "fill_queues (kw # rest) (kwargs_queue, kwargs_queue_backup) =
     fill_queues rest (kwargs_queue @ [kw], kwargs_queue_backup @ [kw])"

definition make_worker_pool ::
  "int \<Rightarrow> int option \<Rightarrow> callable option \<Rightarrow> kwargs list option \<Rightarrow> int option \<Rightarrow> error + pool" where
  "make_worker_pool cpu_count processes_arg initializer_arg initializer_kwargs_per_process
       max_tasks_per_worker =
     (let procs = (if \<not> truthy_int processes_arg then cpu_count else the processes_arg);
          kw0 = \<lparr>processes = procs, maxtasksperchild = None, initializer = None,
                 initargs = None\<rparr>;
          kw1 = (if truthy_int max_tasks_per_worker
                 then kw0\<lparr>maxtasksperchild := max_tasks_per_worker\<rparr> else kw0)
      in case initializer_arg of
           None \<Rightarrow> Inr (Pool kw1)
         | Some f \<Rightarrow>
             (case initializer_kwargs_per_process of
                None \<Rightarrow> Inr (Pool (kw1\<lparr>initializer := Some f\<rparr>))
              | Some [] \<Rightarrow> Inr (Pool (kw1\<lparr>initializer := Some f\<rparr>))
              | Some (k # ks) \<Rightarrow>
                  if int (length (k # ks)) = procs then
                    (case fill_queues (k # ks) ([], []) of
                       (kwargs_queue, kwargs_queue_backup) \<Rightarrow>
                         Inr (Pool (kw1\<lparr>initializer := Some worker_init_entry_point_fn,
                                         initargs := Some (f, kwargs_queue, kwargs_queue_backup)\<rparr>)))
                  else Inl (AssertionError [])))"

text \<open>
  The result of \<open>worker_pool_with_gpu_assignments\<close>: \<open>NoPool b\<close> is the return value
  \<open>None\<close>, where \<open>b\<close> is the backend handed to \<open>set_keras_backend\<close> before returning (if
  any); \<open>Started p\<close> is the pool returned by \<open>make_worker_pool\<close>.
\<close>

datatype pool_result = NoPool "string option" | Started pool

definition worker_pool_with_gpu_assignments ::
  "int \<Rightarrow> int \<Rightarrow> int \<Rightarrow> string option \<Rightarrow> int \<Rightarrow> int option \<Rightarrow> error + pool_result" where
  "worker_pool_with_gpu_assignments cpu_count num_jobs num_gpus backend max_workers_per_gpu
       max_tasks_per_worker =
     (let num_workers = (if num_jobs \<noteq> 0 then num_jobs else cpu_count) in
      if num_workers = 0 then
        Inr (NoPool (if truthy_str backend then backend else None))
      else
        (case make_worker_pool cpu_count (Some num_workers) (Some worker_init)
                (plan_worker_init_kwargs num_workers num_gpus backend max_workers_per_gpu)
                max_tasks_per_worker of
           Inl e \<Rightarrow> Inl e
         | Inr p \<Rightarrow> Inr (Started p)))"

section \<open>The worker entry point (parallelism.py, lines 191 to 208)\<close>

text \<open>
  \<open>worker_init_entry_point\<close> runs once in each worker process. The two queues are shared
  objects; the model takes their contents and returns the contents afterwards (\<open>None\<close>
  for a queue that was not passed). A queue object is always truthy. \<open>get(block=False)\<close>
  on an empty queue raises \<open>queue.Empty\<close>, which the source catches; \<open>get(block=True)\<close> on
  an empty queue does not return, which is the outcome \<open>Blocked\<close>. The model is that of
  one worker running alone between its \<open>get\<close> and its \<open>put\<close>.

  \<open>finalizer\<close> is the argument of the exit hook registered with \<open>Finalize\<close> (it puts
  that kwargs dictionary back on the primary queue when the worker exits), and
  \<open>init_call\<close> is the final call \<open>init_function(**kwargs)\<close>.
\<close>

record entry_result =
  arg_queue_after :: "kwargs list option"
  backup_arg_queue_after :: "kwargs list option"
  finalizer :: "kwargs option"
  init_call :: "callable \<times> kwargs"

datatype entry_outcome = Blocked | Raised error | Initialized entry_result

definition worker_init_entry_point ::
  "callable \<Rightarrow> kwargs list option \<Rightarrow> kwargs list option \<Rightarrow> entry_outcome" where
  "worker_init_entry_point init_function arg_queue backup_arg_queue =
     (case arg_queue of
        None \<Rightarrow>
          Initialized \<lparr>arg_queue_after = None, backup_arg_queue_after = backup_arg_queue,
                       finalizer = None, init_call = (init_function, [])\<rparr>
      | Some (kw # rest) \<Rightarrow>
          Initialized \<lparr>arg_queue_after = Some rest, backup_arg_queue_after = backup_arg_queue,
                       finalizer = Some kw, init_call = (init_function, kw)\<rparr>
      | Some [] \<Rightarrow>
          (case backup_arg_queue of
             None \<Rightarrow> Raised (AttributeError ''get'')
           | Some [] \<Rightarrow> Blocked
           | Some (kw # rest) \<Rightarrow>
               Initialized \<lparr>arg_queue_after = Some [],
                            backup_arg_queue_after = Some (rest @ [kw]),
                            finalizer = Some kw, init_call = (init_function, kw)\<rparr>))"

section \<open>Wrapped exceptions (parallelism.py, lines 223 to 240)\<close>

text \<open>
  In the handler of \<open>call_wrapped\<close>, \<open>sys.exc_info()\<close> reports the exception that the
  function raised and the traceback of the point of failure (the exception's type is the
  class of that object). Both are values of arbitrary types here. A function that may
  raise returns either its result or that pair.

  \<open>traceback.format_exception\<close> belongs to the standard library and is a parameter: a
  function from the exception and the traceback to a list of strings.
\<close>

abbreviation LF :: char where "LF \<equiv> CHR 0x0A"

record 'e WrapException =
  exception :: 'e
  formatted :: string

definition WrapException_init ::
  "('e \<Rightarrow> 'tb \<Rightarrow> string list) \<Rightarrow> 'e \<times> 'tb \<Rightarrow> 'e WrapException" where
  "WrapException_init format_exception exc_info =
     (case exc_info of (exc_value, exc_tb) \<Rightarrow>
        \<lparr>exception = exc_value, formatted = concat (format_exception exc_value exc_tb)\<rparr>)"

text \<open>
  \<open>Exception.__str__(self)\<close> of the wrapper: \<open>WrapException.__init__\<close> takes no
  argument, so the wrapper's \<open>args\<close> is the empty tuple, whose string is empty.
\<close>

definition Exception_str_no_args :: string where
  "Exception_str_no_args = []"

definition WrapException_str :: "'e WrapException \<Rightarrow> string" where
  "WrapException_str w =
     Exception_str_no_args @ [LF] @ ''Original traceback:'' @ [LF] @ formatted w"



text \<open>
  An exception object as the examples below use it: the name of its class and its
  string (the value of \<open>str\<close> on it).
\<close>

record py_exception =
  class_name :: string
  message :: string

section \<open>Local paths of downloads (downloads.py, lines 93 to 120)\<close>

text \<open>
  \<open>os.path.join\<close> on a POSIX system: a component that starts with a slash replaces what
  came before; otherwise it is appended, after a slash unless the path so far is empty
  or already ends with one.
\<close>

definition join_component :: "string \<Rightarrow> string \<Rightarrow> string" where
  "join_component path b =
     (if b \<noteq> [] \<and> hd b = CHR ''/'' then b
      else if path = [] \<or> last path = CHR ''/'' then path @ b
      else path @ ''/'' @ b)"

definition join :: "string \<Rightarrow> string list \<Rightarrow> string" where
  "join a p = foldl join_component a p"

text \<open>
  \<open>pipes.quote\<close>: the empty string becomes two single quotes, a string of safe
  characters is returned as it is, and any other string is wrapped in single quotes with
  each single quote inside replaced by \<open>'"'"'\<close>.
\<close>

definition safechars :: "char list" where
  "safechars = ''abcdefghijklmnopqrstuvwxyzABCDEFGHIJKLMNOPQRSTUVWXYZ0123456789@%_-+=:,./''"

definition quote :: "string \<Rightarrow> string" where
  "quote file =
     (if file = [] then [CHR 0x27, CHR 0x27]
      else if list_all (\<lambda>c. c \<in> set safechars) file then file
      else [CHR 0x27]
           @ concat (map (\<lambda>c. if c = CHR 0x27
                               then [CHR 0x27, CHR 0x22, CHR 0x27, CHR 0x22, CHR 0x27]
                               else [c]) file)
           @ [CHR 0x27])"

text \<open>
  \<open>get_path\<close>, with the module's downloads directory and the file system's \<open>exists\<close>
  as parameters. The defaults of the source are \<open>filename = ''\<close> and
  \<open>test_exists = True\<close>.
\<close>

definition missing_message :: "string \<Rightarrow> string \<Rightarrow> string" where
  "missing_message path download_name =
     ''Missing MHCflurry downloadable file: '' @ quote path
     @ ''. To download this data, run:'' @ [LF, CHR 0x09]
     @ ''mhcflurry-downloads fetch '' @ download_name @ [LF] @ ''in a shell.''"

definition get_path ::
  "string \<Rightarrow> (string \<Rightarrow> bool) \<Rightarrow> string \<Rightarrow> string \<Rightarrow> bool \<Rightarrow> error + string" where
  "get_path downloads_dir exists download_name filename test_exists =
     (if CHR ''/'' \<in> set download_name then
        Inl (AssertionError (''Invalid download: '' @ download_name))
      else
        (let path = join downloads_dir [download_name, filename] in
         if test_exists \<and> \<not> exists path then
           Inl (RuntimeError (missing_message path download_name))
         else Inr path))"

section \<open>Reading results\<close>

text \<open>
  The GPU lists of the kwargs dictionaries that a started pool holds in its primary
  queue, in worker order.
\<close>

definition started_gpu_assignments :: "error + pool_result \<Rightarrow> int list list option" where
  "started_gpu_assignments r =
     (case r of
        Inr (Started (Pool kw)) \<Rightarrow>
          (case initargs kw of
             Some (f, kwargs_queue, kwargs_queue_backup) \<Rightarrow>
               Some (map gpu_device_nums kwargs_queue)
           | None \<Rightarrow> None)
      | _ \<Rightarrow> None)"

text \<open>The number of workers whose kwargs name a given GPU.\<close>

definition workers_on_gpu :: "int \<Rightarrow> kwargs list \<Rightarrow> nat" where
  "workers_on_gpu gpu kws = length (filter (\<lambda>kw. gpu \<in> set (gpu_device_nums kw)) kws)"

section \<open>The assignment loop without its accumulator\<close>

text \<open>
  For the proofs the loop is described by the sequence of GPU lists it hands out, by the
  count that a GPU still has in the dictionary (zero once it is deleted), and by the
  property that every count in the dictionary is at least one.
\<close>

fun gpu_sequence :: "nat \<Rightarrow> (int \<times> int) list \<Rightarrow> int list list" where
  "gpu_sequence 0 remaining = []"
| "gpu_sequence (Suc n) remaining =
     (case assign_gpu remaining of
        (gpu_assignment, remaining') \<Rightarrow> gpu_assignment # gpu_sequence n remaining')"

definition capacity :: "(int \<times> int) list \<Rightarrow> int \<Rightarrow> int" where
  "capacity remaining gpu = (case map_of remaining gpu of None \<Rightarrow> 0 | Some c \<Rightarrow> c)"

definition positive_counts :: "(int \<times> int) list \<Rightarrow> bool" where
  "positive_counts remaining = list_all (\<lambda>(gpu, c). 1 \<le> c) remaining"

definition uses :: "int \<Rightarrow> int list list \<Rightarrow> nat" where
  "uses gpu gs = length (filter (\<lambda>g. gpu \<in> set g) gs)"

section \<open>The pool factory\<close>

text \<open>
  C1. For \<open>num_jobs = 5\<close>, \<open>num_gpus = 2\<close> and \<open>max_workers_per_gpu = 2\<close> the claim expects
  the workers to receive the GPUs \<open>[0], [1], [0], [1], []\<close> in turn. The source sorts the
  GPUs by their remaining count in ascending order, so the GPU that has already been
  used is chosen again until it is full: the workers receive \<open>[0], [0], [1], [1], []\<close>.
\<close>

theorem five_workers_two_gpus:
  "started_gpu_assignments (worker_pool_with_gpu_assignments 4 5 2 None 2 None)
     = Some [[0], [0], [1], [1], []]"
  by code_simp

text \<open>
  C3. With \<open>num_jobs = 0\<close> the claim expects the return value \<open>None\<close>. The source
  replaces a zero \<open>num_jobs\<close> by \<open>cpu_count()\<close> before it tests for zero, so on a machine
  with four CPUs a pool of four workers is started.
\<close>

theorem num_jobs_zero_starts_pool:
  "worker_pool_with_gpu_assignments 4 0 0 None 1 None =
     Inr (Started (Pool \<lparr>processes = 4, maxtasksperchild = None,
                         initializer = Some worker_init, initargs = None\<rparr>))"
  by (simp add: worker_pool_with_gpu_assignments_def make_worker_pool_def
      plan_worker_init_kwargs_def)

text \<open>
  The same for every machine: whenever \<open>cpu_count()\<close> is not zero, a call with
  \<open>num_jobs = 0\<close> does not return \<open>None\<close>, whatever the other arguments are.
\<close>

lemma num_jobs_zero_never_none:
  "cpu_count \<noteq> 0 \<Longrightarrow>
   worker_pool_with_gpu_assignments cpu_count 0 num_gpus backend m mt \<noteq> Inr (NoPool b)"
  by (simp add: worker_pool_with_gpu_assignments_def split: sum.splits)

text \<open>
  C9. \<open>max_tasks_per_worker = 0\<close> is falsy, so \<open>maxtasksperchild\<close> is left unset: the call
  builds the same pool as \<open>max_tasks_per_worker = None\<close>, and a pool it builds has no
  recycle limit.
\<close>

theorem max_tasks_zero_is_unbounded:
  "make_worker_pool cpu_count p f kws (Some 0) = make_worker_pool cpu_count p f kws None
   \<and> (\<forall>k. make_worker_pool cpu_count p f kws (Some 0) = Inr (Pool k)
          \<longrightarrow> maxtasksperchild k = None)"
  by (auto simp add: make_worker_pool_def Let_def
      split: option.splits list.splits if_splits prod.splits)

theorem max_tasks_zero_is_unbounded_witness:
  "make_worker_pool 4 (Some 2) (Some worker_init) None (Some 0)
     = Inr (Pool \<lparr>processes = 2, maxtasksperchild = None,
                  initializer = Some worker_init, initargs = None\<rparr>)
   \<and> maxtasksperchild \<lparr>processes = 2, maxtasksperchild = None,
                  initializer = Some worker_init, initargs = None\<rparr> = None
   \<and> make_worker_pool 4 (Some 2) (Some worker_init) None None
     = Inr (Pool \<lparr>processes = 2, maxtasksperchild = None,
                  initializer = Some worker_init, initargs = None\<rparr>)"
  using max_tasks_zero_is_unbounded [of 4 "Some 2" "Some worker_init" None]
  by (simp add: make_worker_pool_def)

text \<open>
  C2, as stated, fails for the empty list: it is not \<open>None\<close> and its length 0 differs
  from \<open>processes = 1\<close>, yet the source treats it as absent (\<open>if
  initializer_kwargs_per_process:\<close>) and builds the pool.
\<close>

theorem empty_kwargs_list_builds_pool:
  "make_worker_pool 4 (Some 1) (Some worker_init) (Some []) None =
     Inr (Pool \<lparr>processes = 1, maxtasksperchild = None,
                 initializer = Some worker_init, initargs = None\<rparr>)"
  by (simp add: make_worker_pool_def)

text \<open>
  C2, amended. For every \<open>processes = P \<ge> 1\<close>, every initializer and every non-empty
  list of initializer kwargs whose length differs from \<open>P\<close>, \<open>make_worker_pool\<close> raises
  the assertion error (the spec's configuration error) and no pool is constructed.
\<close>

theorem kwargs_length_mismatch_raises:
  "1 \<le> P \<Longrightarrow> kws \<noteq> [] \<Longrightarrow> int (length kws) \<noteq> P \<Longrightarrow>
   make_worker_pool cpu_count (Some P) (Some f) (Some kws) mt = Inl (AssertionError [])"
  by (cases kws) (simp_all add: make_worker_pool_def Let_def)

theorem kwargs_length_mismatch_raises_witness:
  "(1::int) \<le> 3 \<and> [[(''a'', PyNone)], [(''b'', PyNone)]] \<noteq> []
   \<and> int (length [[(''a'', PyNone)], [(''b'', PyNone)]]) \<noteq> 3
   \<and> make_worker_pool 4 (Some 3) (Some worker_init)
        (Some [[(''a'', PyNone)], [(''b'', PyNone)]]) None = Inl (AssertionError [])"
  using kwargs_length_mismatch_raises
    [of 3 "[[(''a'', PyNone)], [(''b'', PyNone)]]" 4 worker_init None]
  by simp

text \<open>
  When the list of kwargs is accepted, both queues are seeded with all of it, in order:
  the backup queue of a started pool is never empty.
\<close>

lemma fill_queues_contents:
  "fill_queues kws (kwargs_queue, kwargs_queue_backup)
     = (kwargs_queue @ kws, kwargs_queue_backup @ kws)"
  by (induction kws arbitrary: kwargs_queue kwargs_queue_backup) simp_all

lemma make_worker_pool_seeds_queues:
  "kws \<noteq> [] \<Longrightarrow> int (length kws) = P \<Longrightarrow>
   make_worker_pool cpu_count (Some P) (Some f) (Some kws) None =
     Inr (Pool \<lparr>processes = P, maxtasksperchild = None,
                 initializer = Some worker_init_entry_point_fn,
                 initargs = Some (f, kws, kws)\<rparr>)"
proof (cases kws)
  case Nil
  assume "kws \<noteq> []"
  with Nil show ?thesis by simp
next
  case (Cons k ks)
  assume len: "int (length kws) = P"
  then have "P \<noteq> 0" using Cons by auto
  then show ?thesis
    using len by (simp add: make_worker_pool_def Cons fill_queues_contents)
qed

section \<open>Wrapped exceptions\<close>

text \<open>
  C5, as stated, fails: for a \<open>ValueError\<close> with the message \<open>boom\<close>, whose formatted
  traceback is the three lines below, the string of the wrapper is not the original
  exception's string followed by the formatted traceback. The wrapper's string starts
  with its own base string, which is empty, and a separator line.
\<close>

theorem wrapper_str_differs_from_claim:
  "WrapException_str (WrapException_init
       (\<lambda>exc_value exc_tb.
          [''Traceback (most recent call last):'' @ [LF],
           ''  File parallelism.py, line 238, in call_wrapped'' @ [LF],
           ''ValueError: boom'' @ [LF]])
       (\<lparr>class_name = ''ValueError'', message = ''boom''\<rparr>, ()))
   \<noteq> message \<lparr>class_name = ''ValueError'', message = ''boom''\<rparr>
     @ formatted (WrapException_init
       (\<lambda>exc_value exc_tb.
          [''Traceback (most recent call last):'' @ [LF],
           ''  File parallelism.py, line 238, in call_wrapped'' @ [LF],
           ''ValueError: boom'' @ [LF]])
       (\<lparr>class_name = ''ValueError'', message = ''boom''\<rparr>, ()))"
  by (simp add: WrapException_str_def WrapException_init_def Exception_str_no_args_def)

text \<open>
  C5, amended. For every captured exception the string of the wrapper is the wrapper's
  own base string (empty, the wrapper being built without arguments), a newline, the
  line \<open>Original traceback:\<close>, a newline and then the captured formatted traceback text,
  which is the joined output of \<open>traceback.format_exception\<close> on the captured exception
  and traceback.
\<close>

theorem wrapper_str:
  "WrapException_str (WrapException_init format_exception (exc_value, exc_tb))
     = [LF] @ ''Original traceback:'' @ [LF]
       @ formatted (WrapException_init format_exception (exc_value, exc_tb))
   \<and> formatted (WrapException_init format_exception (exc_value, exc_tb))
     = concat (format_exception exc_value exc_tb)"
  by (simp add: WrapException_str_def WrapException_init_def Exception_str_no_args_def)




section \<open>The worker entry point\<close>

text \<open>
  C7. When the primary queue is empty and the backup queue is not, the worker is
  initialised with the set at the head of the backup queue, and that set is put back at
  the end of the backup queue at once: the backup queue holds as many sets after the
  read as before.
\<close>

theorem backup_queue_count_invariant:
  "backup \<noteq> [] \<Longrightarrow>
   \<exists>r. worker_init_entry_point init_function (Some []) (Some backup) = Initialized r
     \<and> init_call r = (init_function, hd backup)
     \<and> backup_arg_queue_after r = Some (tl backup @ [hd backup])
     \<and> map_option length (backup_arg_queue_after r) = Some (length backup)"
  by (cases backup) (simp_all add: worker_init_entry_point_def)

theorem backup_queue_count_invariant_witness:
  "[[(''gpu_device_nums'', PyIntList [0])], [(''gpu_device_nums'', PyIntList [1])]] \<noteq> []
   \<and> (\<exists>r. worker_init_entry_point worker_init (Some [])
            (Some [[(''gpu_device_nums'', PyIntList [0])], [(''gpu_device_nums'', PyIntList [1])]])
          = Initialized r
        \<and> init_call r = (worker_init, [(''gpu_device_nums'', PyIntList [0])])
        \<and> backup_arg_queue_after r
          = Some [[(''gpu_device_nums'', PyIntList [1])], [(''gpu_device_nums'', PyIntList [0])]]
        \<and> map_option length (backup_arg_queue_after r) = Some 2)"
  using backup_queue_count_invariant
    [of "[[(''gpu_device_nums'', PyIntList [0])], [(''gpu_device_nums'', PyIntList [1])]]" worker_init]
  by auto

section \<open>Paths of downloads\<close>

text \<open>
  C8. For a download name without a slash, when the joined path does not exist and
  \<open>test_exists\<close> is true, \<open>get_path\<close> raises the runtime error (the spec's
  missing-download error), and its message contains the command to run,
  \<open>mhcflurry-downloads fetch\<close> followed by the download name.
\<close>

theorem missing_download_raises_with_fetch_command:
  "CHR ''/'' \<notin> set download_name \<Longrightarrow>
   \<not> exists (join downloads_dir [download_name, filename]) \<Longrightarrow>
   \<exists>msg. get_path downloads_dir exists download_name filename True = Inl (RuntimeError msg)
     \<and> sublist (''mhcflurry-downloads fetch '' @ download_name) msg"
proof -
  assume a: "CHR ''/'' \<notin> set download_name"
    and b: "\<not> exists (join downloads_dir [download_name, filename])"
  let ?path = "join downloads_dir [download_name, filename]"
  have g: "get_path downloads_dir exists download_name filename True
      = Inl (RuntimeError (missing_message ?path download_name))"
    using a b by (simp add: get_path_def)
  have "missing_message ?path download_name
      = (''Missing MHCflurry downloadable file: '' @ quote ?path
         @ ''. To download this data, run:'' @ [LF, CHR 0x09])
        @ (''mhcflurry-downloads fetch '' @ download_name) @ ([LF] @ ''in a shell.'')"
    by (simp add: missing_message_def)
  then have "sublist (''mhcflurry-downloads fetch '' @ download_name)
      (missing_message ?path download_name)"
    unfolding sublist_def by blast
  with g show ?thesis by blast
qed

theorem missing_download_raises_with_fetch_command_witness:
  "CHR ''/'' \<notin> set ''models_class1''
   \<and> \<not> (\<lambda>p. False) (join ''/data/mhcflurry'' [''models_class1'', ''models''])
   \<and> (\<exists>msg. get_path ''/data/mhcflurry'' (\<lambda>p. False) ''models_class1'' ''models'' True
          = Inl (RuntimeError msg)
        \<and> sublist ''mhcflurry-downloads fetch models_class1'' msg)"
  using missing_download_raises_with_fetch_command
    [of "''models_class1''" "\<lambda>p. False" "''/data/mhcflurry''" "''models''"]
  by simp

text \<open>
  For a downloads directory that does not end with a slash, a non-empty download name
  and a relative file name, the joined path is the three parts separated by slashes.
\<close>

lemma join_relative:
  "downloads_dir \<noteq> [] \<Longrightarrow> last downloads_dir \<noteq> CHR ''/'' \<Longrightarrow>
   download_name \<noteq> [] \<Longrightarrow> CHR ''/'' \<notin> set download_name \<Longrightarrow>
   filename = [] \<or> hd filename \<noteq> CHR ''/'' \<Longrightarrow>
   join downloads_dir [download_name, filename]
     = downloads_dir @ ''/'' @ download_name @ ''/'' @ filename"
proof -
  assume d: "downloads_dir \<noteq> []" "last downloads_dir \<noteq> CHR ''/''"
    and n: "download_name \<noteq> []" "CHR ''/'' \<notin> set download_name"
    and f: "filename = [] \<or> hd filename \<noteq> CHR ''/''"
  have "hd download_name \<in> set download_name" "last download_name \<in> set download_name"
    using n(1) by simp_all
  then have hl: "hd download_name \<noteq> CHR ''/''" "last download_name \<noteq> CHR ''/''"
    using n(2) by auto
  have first: "join_component downloads_dir download_name = downloads_dir @ ''/'' @ download_name"
    using d hl(1) by (simp add: join_component_def)
  have "last (downloads_dir @ ''/'' @ download_name) = last download_name"
    using n(1) by simp
  then have second: "join_component (downloads_dir @ ''/'' @ download_name) filename
      = (downloads_dir @ ''/'' @ download_name) @ ''/'' @ filename"
    using f hl(2) n(1) by (auto simp add: join_component_def)
  have "join downloads_dir [download_name, filename]
      = join_component (join_component downloads_dir download_name) filename"
    by (simp add: join_def)
  also have "\<dots> = (downloads_dir @ ''/'' @ download_name) @ ''/'' @ filename"
    unfolding first by (rule second)
  finally show ?thesis by simp
qed

text \<open>
  C10, as stated, fails for a file name that starts with a slash: \<open>os.path.join\<close>
  then drops the downloads directory and the download name, and \<open>get_path\<close> returns the
  file name alone, which is not the path \<open>downloads_dir/download_name/filename\<close>.
\<close>

theorem get_path_absolute_filename:
  "get_path ''/data/mhcflurry'' (\<lambda>p. False) ''models_class1'' ''/etc/passwd'' False
     = Inr ''/etc/passwd''
   \<and> get_path ''/data/mhcflurry'' (\<lambda>p. False) ''models_class1'' ''/etc/passwd'' False
     \<noteq> Inr (''/data/mhcflurry'' @ ''/'' @ ''models_class1'' @ ''/'' @ ''/etc/passwd'')"
  by (simp add: get_path_def join_def join_component_def)

text \<open>
  C10, amended. For a download name without a slash, \<open>get_path\<close> with
  \<open>test_exists = False\<close> raises nothing, whatever exists on the file system, and returns
  the result of \<open>os.path.join\<close>. For a relative file name (empty or not starting with
  a slash), a non-empty download name and a non-empty downloads directory that does not
  end with a slash, that result is \<open>downloads_dir/download_name/filename\<close>; for a
  file name that starts with a slash it is the file name itself.
\<close>

theorem get_path_without_test:
  "CHR ''/'' \<notin> set download_name \<Longrightarrow>
   get_path downloads_dir exists download_name filename False
     = Inr (join downloads_dir [download_name, filename])
   \<and> (download_name \<noteq> [] \<and> downloads_dir \<noteq> [] \<and> last downloads_dir \<noteq> CHR ''/''
        \<and> (filename = [] \<or> hd filename \<noteq> CHR ''/'') \<longrightarrow>
      get_path downloads_dir exists download_name filename False
        = Inr (downloads_dir @ ''/'' @ download_name @ ''/'' @ filename))
   \<and> (filename \<noteq> [] \<and> hd filename = CHR ''/'' \<longrightarrow>
      get_path downloads_dir exists download_name filename False = Inr filename)"
proof -
  assume n: "CHR ''/'' \<notin> set download_name"
  have g: "get_path downloads_dir exists download_name filename False
      = Inr (join downloads_dir [download_name, filename])"
    using n by (simp add: get_path_def)
  have rel: "join downloads_dir [download_name, filename]
      = downloads_dir @ ''/'' @ download_name @ ''/'' @ filename"
    if "download_name \<noteq> []" "downloads_dir \<noteq> []" "last downloads_dir \<noteq> CHR ''/''"
      "filename = [] \<or> hd filename \<noteq> CHR ''/''"
    using that n by (intro join_relative)
  have abs: "join downloads_dir [download_name, filename] = filename"
    if "filename \<noteq> []" "hd filename = CHR ''/''"
    using that by (simp add: join_def join_component_def)
  show ?thesis
    using g rel abs by simp
qed

theorem get_path_without_test_witness:
  "CHR ''/'' \<notin> set ''models_class1''
   \<and> get_path ''/data/mhcflurry'' (\<lambda>p. False) ''models_class1'' ''models'' False
       = Inr ''/data/mhcflurry/models_class1/models''
   \<and> get_path ''/data/mhcflurry'' (\<lambda>p. True) ''models_class1'' ''/tmp/weights'' False
       = Inr ''/tmp/weights''"
proof -
  have h: "CHR ''/'' \<notin> set ''models_class1''"
    by simp
  note relative = get_path_without_test
    [OF h, of "''/data/mhcflurry''" "\<lambda>p. False" "''models''", THEN conjunct2, THEN conjunct1]
  note absolute = get_path_without_test
    [OF h, of "''/data/mhcflurry''" "\<lambda>p. True" "''/tmp/weights''", THEN conjunct2, THEN conjunct2]
  have "get_path ''/data/mhcflurry'' (\<lambda>p. False) ''models_class1'' ''models'' False
       = Inr ''/data/mhcflurry/models_class1/models''"
    using relative by simp
  moreover have "get_path ''/data/mhcflurry'' (\<lambda>p. True) ''models_class1'' ''/tmp/weights'' False
       = Inr ''/tmp/weights''"
    using absolute by simp
  ultimately show ?thesis
    using h by blast
qed

text \<open>
  The other conditions of the three-part form are needed as well: a downloads directory
  that ends with a slash gets no second slash, and an empty download name adds no
  component.
\<close>

lemma get_path_directory_with_slash:
  "get_path ''/data/'' (\<lambda>p. False) ''models_class1'' ''models'' False
     = Inr ''/data/models_class1/models''"
  by (simp add: get_path_def join_def join_component_def)

lemma get_path_empty_download_name:
  "get_path ''/data'' (\<lambda>p. False) [] ''models'' False = Inr ''/data/models''"
  by (simp add: get_path_def join_def join_component_def)

section \<open>Properties of the GPU assignment\<close>

lemma positive_counts_map_of:
  "positive_counts remaining \<Longrightarrow> map_of remaining gpu = Some c \<Longrightarrow> 1 \<le> c"
  by (auto simp add: positive_counts_def list_all_iff dest: map_of_SomeD)

lemma assign_workers_gpus:
  "map gpu_device_nums (assign_workers ws backend remaining acc)
     = map gpu_device_nums acc @ gpu_sequence (length ws) remaining"
proof (induction ws arbitrary: remaining acc)
  case Nil
  then show ?case by simp
next
  case (Cons w ws)
  obtain g r where step: "assign_gpu remaining = (g, r)"
    by (cases "assign_gpu remaining")
  have one: "gpu_device_nums [(''gpu_device_nums'', PyIntList g), (''keras_backend'', backend)] = g"
    by (simp add: gpu_device_nums_def)
  show ?case
    by (simp add: step Cons.IH one)
qed

lemma list_all_update:
  "list_all P al \<Longrightarrow> P (k, v) \<Longrightarrow> list_all P (AList.update k v al)"
  by (induction al) auto

lemma assign_gpu_empty: "assign_gpu [] = ([], [])"
  by (simp add: assign_gpu_def)

text \<open>
  One pass of the loop body on a non-empty dictionary with positive counts: it hands out
  a GPU of the dictionary, lowers that GPU's count by one and keeps all counts positive.
\<close>

lemma assign_gpu_step:
  assumes pos: "positive_counts remaining" and ne: "remaining \<noteq> []"
  obtains gpu remaining' where
    "assign_gpu remaining = ([gpu], remaining')"
    "gpu \<in> fst ` set remaining"
    "positive_counts remaining'"
    "\<And>h. capacity remaining' h = capacity remaining h - (if h = gpu then 1 else 0)"
    "fst ` set remaining' \<subseteq> fst ` set remaining"
proof -
  define gpu where "gpu = hd (sort_key (\<lambda>key. dict_item remaining key) (map fst remaining))"
  define dec where "dec = AList.update gpu (dict_item remaining gpu - 1) remaining"
  define r where "r = (if dict_item dec gpu = 0 then AList.delete gpu dec else dec)"
  have eq: "assign_gpu remaining = ([gpu], r)"
    using ne by (simp add: assign_gpu_def Let_def gpu_def dec_def r_def)
  have "sort_key (\<lambda>key. dict_item remaining key) (map fst remaining) \<noteq> []"
    using ne by (metis length_sort length_0_conv map_is_Nil_conv)
  then have "gpu \<in> set (sort_key (\<lambda>key. dict_item remaining key) (map fst remaining))"
    unfolding gpu_def by (rule hd_in_set)
  then have mem: "gpu \<in> fst ` set remaining"
    by simp
  then obtain c where c: "map_of remaining gpu = Some c"
    by (metis map_of_eq_None_iff not_Some_eq)
  have c1: "1 \<le> c"
    using pos c by (rule positive_counts_map_of)
  have item: "dict_item remaining gpu = c"
    by (simp add: dict_item_def c)
  have mdec: "map_of dec = (map_of remaining)(gpu \<mapsto> c - 1)"
    by (simp add: dec_def item update_conv')
  have idec: "dict_item dec gpu = c - 1"
    by (simp add: dict_item_def mdec)
  have mr: "map_of r = (if c = 1 then (map_of remaining)(gpu := None)
                         else (map_of remaining)(gpu \<mapsto> c - 1))"
    by (auto simp add: r_def idec mdec delete_conv')
  have posdec: "list_all (\<lambda>(g, n). g = gpu \<or> 1 \<le> n) dec"
    unfolding dec_def
  proof (rule list_all_update)
    show "list_all (\<lambda>(g, n). g = gpu \<or> 1 \<le> n) remaining"
      using pos by (auto simp add: positive_counts_def list_all_iff)
  qed simp
  have setr: "c \<noteq> 1 \<Longrightarrow> r = dec" "c = 1 \<Longrightarrow> r = AList.delete gpu dec"
    by (simp_all add: r_def idec)
  have "positive_counts r"
  proof (cases "c = 1")
    case True
    then have "r = AList.delete gpu dec" by (rule setr)
    then show ?thesis
      using posdec by (auto simp add: positive_counts_def list_all_iff AList.delete_eq)
  next
    case False
    then have rd: "r = dec" by (rule setr)
    have "2 \<le> c" using c1 False by simp
    then have "list_all (\<lambda>(g, n). 1 \<le> n) dec"
      using pos unfolding dec_def positive_counts_def item
      by (intro list_all_update) simp_all
    then show ?thesis by (simp add: positive_counts_def rd)
  qed
  moreover have "capacity r h = capacity remaining h - (if h = gpu then 1 else 0)" for h
    by (simp add: capacity_def mr c)
  moreover have "fst ` set r \<subseteq> fst ` set remaining"
  proof -
    have "fst ` set dec = fst ` set remaining"
      using mem by (auto simp add: dec_def dom_update)
    moreover have "fst ` set r \<subseteq> fst ` set dec"
      using dom_delete_subset [of gpu dec] by (simp add: r_def)
    ultimately show ?thesis by simp
  qed
  ultimately show ?thesis
    using that eq mem by blast
qed


lemma capacity_empty: "capacity [] gpu = 0"
  by (simp add: capacity_def)

lemma capacity_nonneg: "positive_counts remaining \<Longrightarrow> 0 \<le> capacity remaining gpu"
proof (cases "map_of remaining gpu")
  case None
  then show ?thesis by (simp add: capacity_def)
next
  case (Some c)
  assume "positive_counts remaining"
  then have "1 \<le> c" using Some by (rule positive_counts_map_of)
  then show ?thesis by (simp add: capacity_def Some)
qed

lemma positive_counts_empty: "positive_counts []"
  by (simp add: positive_counts_def)

lemma gpu_sequence_length: "length (gpu_sequence n remaining) = n"
  by (induction n arbitrary: remaining) (auto split: prod.splits)


lemma gpu_sequence_entries:
  "positive_counts remaining \<Longrightarrow> g \<in> set (gpu_sequence n remaining) \<Longrightarrow>
   g = [] \<or> (\<exists>gpu. g = [gpu] \<and> gpu \<in> fst ` set remaining)"
proof (induction n arbitrary: remaining)
  case 0
  then show ?case by simp
next
  case (Suc n)
  show ?case
  proof (cases "remaining = []")
    case True
    with Suc.prems Suc.IH [of "[]"] show ?thesis
      by (auto simp add: assign_gpu_empty positive_counts_empty)
  next
    case False
    with Suc.prems(1) obtain gpu r where
      st: "assign_gpu remaining = ([gpu], r)" "gpu \<in> fst ` set remaining"
        "positive_counts r" "fst ` set r \<subseteq> fst ` set remaining"
      by (rule assign_gpu_step) blast
    from Suc.prems(2) have "g = [gpu] \<or> g \<in> set (gpu_sequence n r)"
      by (simp add: st(1))
    then show ?thesis
    proof
      assume "g = [gpu]"
      then show ?thesis using st(2) by blast
    next
      assume "g \<in> set (gpu_sequence n r)"
      with st(3) have "g = [] \<or> (\<exists>gpu. g = [gpu] \<and> gpu \<in> fst ` set r)"
        by (rule Suc.IH)
      then show ?thesis using st(4) by blast
    qed
  qed
qed

lemma gpu_sequence_uses_le:
  "positive_counts remaining \<Longrightarrow> int (uses gpu (gpu_sequence n remaining)) \<le> capacity remaining gpu"
proof (induction n arbitrary: remaining)
  case 0
  then show ?case by (simp add: uses_def capacity_nonneg)
next
  case (Suc n)
  show ?case
  proof (cases "remaining = []")
    case True
    have "int (uses gpu (gpu_sequence n [])) \<le> capacity [] gpu"
      by (rule Suc.IH) (rule positive_counts_empty)
    then show ?thesis
      by (simp add: True assign_gpu_empty uses_def)
  next
    case False
    with Suc.prems obtain g0 r where
      st: "assign_gpu remaining = ([g0], r)" "positive_counts r"
        "\<And>h. capacity r h = capacity remaining h - (if h = g0 then 1 else 0)"
      by (rule assign_gpu_step) blast
    have "int (uses gpu (gpu_sequence n r)) \<le> capacity r gpu"
      using st(2) by (rule Suc.IH)
    then show ?thesis
      by (auto simp add: st(1) st(3) uses_def)
  qed
qed

lemma gpu_sequence_cpu_after_full:
  "positive_counts remaining \<Longrightarrow> i < n \<Longrightarrow> gpu_sequence n remaining ! i = [] \<Longrightarrow>
   int (uses gpu (take i (gpu_sequence n remaining))) = capacity remaining gpu"
proof (induction n arbitrary: remaining i)
  case 0
  then show ?case by simp
next
  case (Suc n)
  show ?case
  proof (cases "remaining = []")
    case True
    show ?thesis
    proof (cases i)
      case 0
      then show ?thesis by (simp add: True uses_def capacity_empty)
    next
      case (Suc j)
      have "int (uses gpu (take j (gpu_sequence n []))) = capacity [] gpu"
        using Suc.prems(2,3) unfolding True Suc
        by (intro Suc.IH) (simp_all add: positive_counts_empty assign_gpu_empty)
      then show ?thesis
        by (simp add: True Suc assign_gpu_empty uses_def)
    qed
  next
    case False
    with Suc.prems(1) obtain g0 r where
      st: "assign_gpu remaining = ([g0], r)" "positive_counts r"
        "\<And>h. capacity r h = capacity remaining h - (if h = g0 then 1 else 0)"
      by (rule assign_gpu_step) blast
    show ?thesis
    proof (cases i)
      case 0
      with Suc.prems(3) show ?thesis by (simp add: st(1))
    next
      case (Suc j)
      have "int (uses gpu (take j (gpu_sequence n r))) = capacity r gpu"
        using Suc.prems(2,3) unfolding Suc
        by (intro Suc.IH) (simp_all add: st(1) st(2))
      then show ?thesis
        by (auto simp add: Suc st(1) st(3) uses_def)
    qed
  qed
qed

lemma map_of_constant:
  "map_of (map (\<lambda>k. (k, v)) ks) k = (if k \<in> set ks then Some v else None)"
  by (induction ks) auto

lemma positive_counts_init:
  "1 \<le> max_workers_per_gpu \<Longrightarrow> positive_counts (gpu_assignments_init num_gpus max_workers_per_gpu)"
  by (simp add: positive_counts_def gpu_assignments_init_def list_all_iff)

lemma capacity_init:
  "capacity (gpu_assignments_init num_gpus max_workers_per_gpu) gpu
     = (if 0 \<le> gpu \<and> gpu < num_gpus then max_workers_per_gpu else 0)"
  by (auto simp add: capacity_def gpu_assignments_init_def map_of_constant range_py_def)

lemma keys_init:
  "fst ` set (gpu_assignments_init num_gpus max_workers_per_gpu) = {0..num_gpus - 1}"
  by (force simp add: gpu_assignments_init_def range_py_def)

lemma workers_on_gpu_uses:
  "workers_on_gpu gpu kws = uses gpu (map gpu_device_nums kws)"
  by (simp add: workers_on_gpu_def uses_def filter_map comp_def)

text \<open>
  C4, as stated, fails for \<open>num_gpus = 0\<close>: the assignment is skipped (\<open>if num_gpus:\<close>)
  and \<open>worker_init_kwargs\<close> stays \<open>None\<close>, so no list with one entry per worker is
  produced.
\<close>

theorem no_gpus_no_kwargs:
  "plan_worker_init_kwargs 1 0 None 1 = None"
  by (simp add: plan_worker_init_kwargs_def)

text \<open>
  C4, amended. For every \<open>num_workers \<ge> 1\<close>, \<open>num_gpus \<ge> 1\<close> and
  \<open>max_workers_per_gpu \<ge> 1\<close> the assignment produces a list with exactly one kwargs
  dictionary per worker; each holds no GPU or one GPU of \<open>range(num_gpus)\<close>; no GPU is
  named by more than \<open>max_workers_per_gpu\<close> of them; and whenever a worker gets the empty
  list, every GPU has already been given \<open>max_workers_per_gpu\<close> of the earlier workers.
\<close>

theorem gpu_plan_properties:
  assumes "1 \<le> num_workers" and "1 \<le> num_gpus" and "1 \<le> max_workers_per_gpu"
  shows "\<exists>kws. plan_worker_init_kwargs num_workers num_gpus backend max_workers_per_gpu = Some kws
    \<and> int (length kws) = num_workers
    \<and> (\<forall>kw \<in> set kws. length (gpu_device_nums kw) \<le> 1
          \<and> (\<forall>gpu \<in> set (gpu_device_nums kw). 0 \<le> gpu \<and> gpu < num_gpus))
    \<and> (\<forall>gpu. int (workers_on_gpu gpu kws) \<le> max_workers_per_gpu)
    \<and> (\<forall>i < length kws. gpu_device_nums (kws ! i) = [] \<longrightarrow>
          (\<forall>gpu. 0 \<le> gpu \<and> gpu < num_gpus \<longrightarrow>
             int (workers_on_gpu gpu (take i kws)) = max_workers_per_gpu))"
proof -
  let ?init = "gpu_assignments_init num_gpus max_workers_per_gpu"
  let ?n = "length (range_py num_workers)"
  define kws where "kws = assign_workers (range_py num_workers) (PyStr ''tensorflow-default'') ?init []"
  have plan: "plan_worker_init_kwargs num_workers num_gpus backend max_workers_per_gpu = Some kws"
    using assms(2) by (simp add: plan_worker_init_kwargs_def kws_def)
  have gpus: "map gpu_device_nums kws = gpu_sequence ?n ?init"
    by (simp add: kws_def assign_workers_gpus)
  have pos: "positive_counts ?init"
    using assms(3) by (rule positive_counts_init)
  have n: "int ?n = num_workers"
    using assms(1) by (simp add: range_py_def)
  have len: "length kws = ?n"
    using arg_cong [OF gpus, of length] by (simp add: gpu_sequence_length)
  have entries: "length (gpu_device_nums kw) \<le> 1
      \<and> (\<forall>gpu \<in> set (gpu_device_nums kw). 0 \<le> gpu \<and> gpu < num_gpus)"
    if "kw \<in> set kws" for kw
  proof -
    have "gpu_device_nums kw \<in> set (gpu_sequence ?n ?init)"
      using that gpus by (metis image_eqI set_map)
    with pos have "gpu_device_nums kw = []
        \<or> (\<exists>gpu. gpu_device_nums kw = [gpu] \<and> gpu \<in> fst ` set ?init)"
      by (rule gpu_sequence_entries)
    then show ?thesis
      unfolding keys_init by auto
  qed
  have cap: "int (workers_on_gpu gpu kws) \<le> max_workers_per_gpu" for gpu
  proof -
    have "int (workers_on_gpu gpu kws) \<le> capacity ?init gpu"
      unfolding workers_on_gpu_uses gpus using pos by (rule gpu_sequence_uses_le)
    also have "\<dots> \<le> max_workers_per_gpu"
      using assms(3) by (simp add: capacity_init)
    finally show ?thesis .
  qed
  have full: "int (workers_on_gpu gpu (take i kws)) = max_workers_per_gpu"
    if "i < length kws" "gpu_device_nums (kws ! i) = []" "0 \<le> gpu \<and> gpu < num_gpus" for i gpu
  proof -
    have i: "i < ?n" using that(1) len by simp
    have "gpu_sequence ?n ?init ! i = []"
      using that(1,2) gpus by (metis nth_map)
    with pos i have "int (uses gpu (take i (gpu_sequence ?n ?init))) = capacity ?init gpu"
      by (rule gpu_sequence_cpu_after_full)
    moreover have "map gpu_device_nums (take i kws) = take i (gpu_sequence ?n ?init)"
      by (metis gpus take_map)
    ultimately show ?thesis
      using that(3) by (simp add: workers_on_gpu_uses capacity_init)
  qed
  show ?thesis
    using plan n len entries cap full by (intro exI [of _ kws]) simp
qed

theorem gpu_plan_properties_witness:
  "(1::int) \<le> 5 \<and> (1::int) \<le> 2
   \<and> (\<exists>kws. plan_worker_init_kwargs 5 2 None 2 = Some kws
        \<and> int (length kws) = 5
        \<and> int (workers_on_gpu 0 kws) \<le> 2
        \<and> int (workers_on_gpu 1 kws) \<le> 2
        \<and> gpu_device_nums (kws ! 4) = []
        \<and> int (workers_on_gpu 0 (take 4 kws)) = 2
        \<and> int (workers_on_gpu 1 (take 4 kws)) = 2)"
proof -
  obtain kws where
    plan: "plan_worker_init_kwargs 5 2 None 2 = Some kws"
    and len: "int (length kws) = 5"
    and cap: "\<forall>gpu. int (workers_on_gpu gpu kws) \<le> 2"
    and full: "\<forall>i < length kws. gpu_device_nums (kws ! i) = [] \<longrightarrow>
          (\<forall>gpu. 0 \<le> gpu \<and> gpu < 2 \<longrightarrow> int (workers_on_gpu gpu (take i kws)) = 2)"
    using gpu_plan_properties [of 5 2 2 None] by auto
  have "map_option (\<lambda>l. gpu_device_nums (l ! 4)) (plan_worker_init_kwargs 5 2 None 2) = Some []"
    by code_simp
  then have cpu: "gpu_device_nums (kws ! 4) = []"
    by (simp add: plan)
  have "4 < length kws"
    using len by simp
  with full cpu have "\<forall>gpu. 0 \<le> gpu \<and> gpu < 2 \<longrightarrow> int (workers_on_gpu gpu (take 4 kws)) = 2"
    by blast
  then have "int (workers_on_gpu 0 (take 4 kws)) = 2" "int (workers_on_gpu 1 (take 4 kws)) = 2"
    by simp_all
  with plan len cap cpu show ?thesis
    by auto
qed

end
